theory Spec2Isabelle
  imports Main "HOL-Library.Word"
begin

unbundle bit_operations_syntax

section \<open>Values of the request handler\<close>

text \<open>
  The program is \<^verbatim>\<open>src/app.py\<close>: a Flask handler \<^verbatim>\<open>analizar\<close> for
  \<^verbatim>\<open>POST /analizar\<close> and a helper \<^verbatim>\<open>analizar_imagen\<close>.

  A Python \<^verbatim>\<open>str\<close> is a \<open>string\<close>, one \<open>char\<close> per code point (code points
  up to 255 only: the type \<open>char\<close> has eight bits). A \<^verbatim>\<open>bytes\<close> object is a list of
  8-bit words.
\<close>

type_synonym byte = "8 word"
type_synonym bytes = "byte list"

text \<open>
  An exception that \<^verbatim>\<open>except Exception as e\<close> catches: its class and the string that
  \<^verbatim>\<open>str(e)\<close> returns. \<open>LibraryError\<close> stands for every class raised by Flask, Pillow
  or the Gemini client (all derive from \<^verbatim>\<open>Exception\<close>).
\<close>

datatype exn_class =
  KeyError | IndexError | TypeError | AttributeError | ValueError | BinasciiError | LibraryError

datatype exn = Exn (exn_cls: exn_class) (str_exn: string)

text \<open>What \<^verbatim>\<open>request.json\<close> can hold after parsing, and what \<^verbatim>\<open>jsonify\<close> serialises.\<close>

datatype json =
  JNull
| JBool bool
| JInt int
| JFloat string
| JStr string
| JArr "json list"
| JObj "(string \<times> json) list"

text \<open>
  A request is seen by the handler only through \<^verbatim>\<open>request.json\<close>, which either raises
  (the body is not JSON) or yields the parsed value.
\<close>

type_synonym request = "exn + json"

record response =
  status_code :: nat
  json_body :: json

text \<open>
  The in-memory file \<^verbatim>\<open>io.BytesIO(imagen_bytes)\<close>: an object of its own, created anew
  in each call. Its address is chosen by the runtime, not by the program, and it shows in
  the \<^verbatim>\<open>repr\<close> of the object.
\<close>

record bytes_io =
  address :: nat
  getvalue :: bytes

text \<open>
  The collaborators the module reaches through its imports: \<^verbatim>\<open>Image.open\<close> on the
  in-memory file, \<^verbatim>\<open>model.generate_content\<close> and the \<^verbatim>\<open>text\<close> property of its
  result. Each either raises or returns. What \<^verbatim>\<open>Image.open\<close> does may depend on the
  file object, not only on its bytes: the message of its exception names the object.
\<close>

record ('img, 'resp) env =
  image_open :: "bytes_io \<Rightarrow> exn + 'img"
  generate_content :: "string \<Rightarrow> 'img \<Rightarrow> exn + 'resp"
  response_text :: "'resp \<Rightarrow> exn + string"

section \<open>Python built-ins used by the handler\<close>

definition type_name :: "json \<Rightarrow> string" where
  "type_name v = (case v of
       JNull \<Rightarrow> ''NoneType''
     | JBool _ \<Rightarrow> ''bool''
     | JInt _ \<Rightarrow> ''int''
     | JFloat _ \<Rightarrow> ''float''
     | JStr _ \<Rightarrow> ''str''
     | JArr _ \<Rightarrow> ''list''
     | JObj _ \<Rightarrow> ''dict'')"

definition quoted :: "string \<Rightarrow> string" where
  "quoted s = [CHR 0x27] @ s @ [CHR 0x27]"

text \<open>\<^verbatim>\<open>data[key]\<close> for a string key.\<close>

definition getitem :: "json \<Rightarrow> string \<Rightarrow> exn + json" where
  "getitem data key = (case data of
       JObj kvs \<Rightarrow>
         (case map_of kvs key of
            None \<Rightarrow> Inl (Exn KeyError (quoted key))
          | Some v \<Rightarrow> Inr v)
     | JArr _ \<Rightarrow> Inl (Exn TypeError ''list indices must be integers or slices, not str'')
     | JStr _ \<Rightarrow> Inl (Exn TypeError (''string indices must be integers, not '' @ quoted ''str''))
     | _ \<Rightarrow> Inl (Exn TypeError (quoted (type_name data) @ '' object is not subscriptable'')))"

text \<open>\<^verbatim>\<open>s.split(sep)\<close> for a one-character separator: never an empty list.\<close>

fun split_str :: "char \<Rightarrow> string \<Rightarrow> string list" where
  "split_str sep [] = [[]]"
| "split_str sep (c # cs) =
     (if c = sep then [] # split_str sep cs
      else (case split_str sep cs of
              [] \<Rightarrow> [[c]]
            | w # ws \<Rightarrow> (c # w) # ws))"

text \<open>\<^verbatim>\<open>image_data.split(',')\<close>: only a \<^verbatim>\<open>str\<close> has the method.\<close>

definition split_comma :: "json \<Rightarrow> exn + string list" where
  "split_comma image_data = (case image_data of
       JStr s \<Rightarrow> Inr (split_str (CHR '','') s)
     | _ \<Rightarrow> Inl (Exn AttributeError
                (quoted (type_name image_data) @ '' object has no attribute '' @ quoted ''split'')))"

text \<open>\<^verbatim>\<open>parts[1]\<close>.\<close>

definition index1 :: "'a list \<Rightarrow> exn + 'a" where
  "index1 parts = (case parts of
       _ # x # _ \<Rightarrow> Inr x
     | _ \<Rightarrow> Inl (Exn IndexError ''list index out of range''))"

subsection \<open>\<^verbatim>\<open>base64.b64decode\<close> with its default \<^verbatim>\<open>validate=False\<close>\<close>

text \<open>
  The decoding table of the standard alphabet: the 6-bit value of a character, or nothing
  for a character outside the alphabet.
\<close>

definition table_a2b_base64 :: "char \<Rightarrow> byte option" where
  "table_a2b_base64 c =
     (let n = (of_char c :: nat) in
      if 65 \<le> n \<and> n \<le> 90 then Some (of_nat (n - 65))
      else if 97 \<le> n \<and> n \<le> 122 then Some (of_nat (n - 71))
      else if 48 \<le> n \<and> n \<le> 57 then Some (of_nat (n + 4))
      else if n = 43 then Some 62
      else if n = 47 then Some 63
      else None)"

fun digits :: "nat \<Rightarrow> string" where
  "digits n = (if n < 10 then [char_of (48 + n)]
               else digits (n div 10) @ [char_of (48 + n mod 10)])"

declare digits.simps [simp del]

text \<open>
  The loop of \<^verbatim>\<open>binascii.a2b_base64\<close> in its lenient mode. A character outside the
  alphabet is skipped. A pad character ends the input once it completes a quad that holds
  at least two data characters; otherwise it is skipped too. At the end of the input an
  unfinished quad is an error.
\<close>

fun a2b_loop :: "nat \<Rightarrow> byte \<Rightarrow> nat \<Rightarrow> bytes \<Rightarrow> string \<Rightarrow> exn + bytes" where
  "a2b_loop quad_pos leftchar pads bin_data [] =
     (if quad_pos \<noteq> 0 then
        (if quad_pos = 1 then
           Inl (Exn BinasciiError
             (''Invalid base64-encoded string: number of data characters (''
              @ digits (length bin_data div 3 * 4 + 1)
              @ '') cannot be 1 more than a multiple of 4''))
         else Inl (Exn BinasciiError ''Incorrect padding''))
      else Inr bin_data)"
| "a2b_loop quad_pos leftchar pads bin_data (c # cs) =
     (if c = CHR ''='' then
        (if quad_pos \<ge> 2 \<and> quad_pos + (pads + 1) \<ge> 4 then Inr bin_data
         else a2b_loop quad_pos leftchar (if quad_pos \<ge> 2 then pads + 1 else pads) bin_data cs)
      else
        (case table_a2b_base64 c of
           None \<Rightarrow> a2b_loop quad_pos leftchar pads bin_data cs
         | Some this_ch \<Rightarrow>
             (if quad_pos = 0 then a2b_loop 1 this_ch 0 bin_data cs
              else if quad_pos = 1 then
                a2b_loop 2 (this_ch AND 0x0f) 0
                  (bin_data @ [push_bit 2 leftchar OR drop_bit 4 this_ch]) cs
              else if quad_pos = 2 then
                a2b_loop 3 (this_ch AND 0x03) 0
                  (bin_data @ [push_bit 4 leftchar OR drop_bit 2 this_ch]) cs
              else
                a2b_loop 0 0 0
                  (bin_data @ [push_bit 6 leftchar OR this_ch]) cs)))"

definition a2b_base64 :: "string \<Rightarrow> exn + bytes" where
  "a2b_base64 s = a2b_loop 0 0 0 [] s"

text \<open>
  \<^verbatim>\<open>b64decode\<close> first encodes a \<^verbatim>\<open>str\<close> argument as ASCII, which is a
  \<^verbatim>\<open>ValueError\<close> when a character is not ASCII.
\<close>

definition b64decode :: "string \<Rightarrow> exn + bytes" where
  "b64decode s =
     (if list_ex (\<lambda>c. (of_char c :: nat) \<ge> 128) s
      then Inl (Exn ValueError ''string argument should contain only ASCII characters'')
      else a2b_base64 s)"

section \<open>The program\<close>

definition PROMPT :: string where
  "PROMPT = ''Describe detalladamente lo que ves en esta imagen en espa'' @ [CHR 0xF1]
     @ ''ol, usando texto plano sin usar caracteres especiales y de manera clara para que pueda ser le''
     @ [CHR 0xED] @ ''do en voz alta''"

text \<open>
  \<^verbatim>\<open>analizar_imagen\<close>: wrap the bytes in an in-memory file, open the image, call the
  model, return the text of its answer. The argument \<open>a\<close> is the address that the runtime
  gives the in-memory file in this call.
\<close>

definition analizar_imagen :: "('img, 'resp) env \<Rightarrow> nat \<Rightarrow> bytes \<Rightarrow> exn + string" where
  "analizar_imagen E a imagen_bytes =
     (case image_open E \<lparr>address = a, getvalue = imagen_bytes\<rparr> of
        Inl e \<Rightarrow> Inl e
      | Inr img \<Rightarrow>
          (case generate_content E PROMPT img of
             Inl e \<Rightarrow> Inl e
           | Inr response \<Rightarrow> response_text E response))"

text \<open>\<^verbatim>\<open>jsonify(...)\<close> alone answers 200; the pair \<^verbatim>\<open>(jsonify(...), 500)\<close> answers 500.\<close>

definition jsonify :: "(string \<times> json) list \<Rightarrow> nat \<Rightarrow> response" where
  "jsonify d code = \<lparr>status_code = code, json_body = JObj d\<rparr>"

text \<open>The body of the \<^verbatim>\<open>try\<close> block of \<^verbatim>\<open>analizar\<close>: the first raise ends it.\<close>

definition analizar_try :: "('img, 'resp) env \<Rightarrow> nat \<Rightarrow> request \<Rightarrow> exn + response" where
  "analizar_try E a req =
     (case req of
        Inl e \<Rightarrow> Inl e
      | Inr data \<Rightarrow>
     (case getitem data ''image'' of
        Inl e \<Rightarrow> Inl e
      | Inr image_data \<Rightarrow>
     (case split_comma image_data of
        Inl e \<Rightarrow> Inl e
      | Inr parts \<Rightarrow>
     (case index1 parts of
        Inl e \<Rightarrow> Inl e
      | Inr image_base64 \<Rightarrow>
     (case b64decode image_base64 of
        Inl e \<Rightarrow> Inl e
      | Inr image_bytes \<Rightarrow>
     (case analizar_imagen E a image_bytes of
        Inl e \<Rightarrow> Inl e
      | Inr descripcion \<Rightarrow>
          Inr (jsonify [(''descripcion'', JStr descripcion), (''status'', JStr ''success'')] 200)))))))"

text \<open>
  \<^verbatim>\<open>analizar\<close>: the \<^verbatim>\<open>try\<close> block and its \<^verbatim>\<open>except Exception\<close> clause. The
  console is the list of lines printed so far; the handler returns it with the response.
  One run of the handler creates one in-memory file, at the address \<open>a\<close>.
\<close>

definition analizar ::
  "('img, 'resp) env \<Rightarrow> nat \<Rightarrow> request \<Rightarrow> string list \<Rightarrow> response \<times> string list" where
  "analizar E a req console =
     (case analizar_try E a req of
        Inr r \<Rightarrow> (r, console)
      | Inl e \<Rightarrow>
          (jsonify [(''error'', JStr (str_exn e)), (''status'', JStr ''error'')] 500,
           console @ [''Error: '' @ str_exn e]))"

section \<open>Reference notions\<close>

text \<open>
  What a client puts after the comma of a data URL: the base64 encoding (RFC 4648,
  section 4) of the bytes of the file. Three bytes become four characters of the alphabet;
  a final group of one or two bytes is filled with zero bits and padded with \<open>=\<close>.
\<close>

definition table_b2a_base64 :: "byte \<Rightarrow> char" where
  "table_b2a_base64 v =
     (let n = unat v in
      if n < 26 then char_of (65 + n)
      else if n < 52 then char_of (71 + n)
      else if n < 62 then char_of (n - 4)
      else if n = 62 then CHR ''+''
      else CHR ''/'')"

fun b64encode :: "bytes \<Rightarrow> string" where
  "b64encode [] = []"
| "b64encode [a] =
     [table_b2a_base64 (drop_bit 2 a), table_b2a_base64 (push_bit 4 (a AND 0x03)),
      CHR ''='', CHR ''='']"
| "b64encode [a, b] =
     [table_b2a_base64 (drop_bit 2 a),
      table_b2a_base64 (push_bit 4 (a AND 0x03) OR drop_bit 4 b),
      table_b2a_base64 (push_bit 2 (b AND 0x0f)), CHR ''='']"
| "b64encode (a # b # c # rest) =
     [table_b2a_base64 (drop_bit 2 a),
      table_b2a_base64 (push_bit 4 (a AND 0x03) OR drop_bit 4 b),
      table_b2a_base64 (push_bit 2 (b AND 0x0f) OR drop_bit 6 c),
      table_b2a_base64 (c AND 0x3f)] @ b64encode rest"

text \<open>
  A valid base64 string in the sense of RFC 4648: whole quads of alphabet characters, the
  last quad possibly ending in one or two pad characters, and nothing else.
\<close>

definition valid_base64 :: "string \<Rightarrow> bool" where
  "valid_base64 s =
     (let body = takeWhile (\<lambda>c. c \<noteq> CHR ''='') s;
          pad = dropWhile (\<lambda>c. c \<noteq> CHR ''='') s
      in length s mod 4 = 0
         \<and> list_all (\<lambda>c. table_a2b_base64 c \<noteq> None) body
         \<and> (pad = [] \<or> pad = ''='' \<or> pad = ''==''))"

text \<open>The 42 bytes of a GIF file holding one pixel.\<close>

definition gif_1x1 :: bytes where
  "gif_1x1 = [71, 73, 70, 56, 57, 97, 1, 0, 1, 0, 128, 0, 0, 0, 0, 0, 255, 255, 255, 33, 249,
     4, 1, 0, 0, 0, 0, 44, 0, 0, 0, 0, 1, 0, 1, 0, 0, 2, 1, 68, 0, 59]"

text \<open>Lower-case hexadecimal digits of a number, as \<^verbatim>\<open>repr\<close> prints an address.\<close>

fun hex :: "nat \<Rightarrow> string" where
  "hex n = (if n < 16 then [char_of (if n < 10 then 48 + n else 87 + n)]
            else hex (n div 16) @ [char_of (if n mod 16 < 10 then 48 + n mod 16 else 87 + n mod 16)])"

declare hex.simps [simp del]

text \<open>
  Stub collaborators for concrete runs. The opener accepts that one file (an image is
  represented by the bytes of its file) and rejects every other one with the message of
  the image library, which ends in the \<^verbatim>\<open>repr\<close> of the in-memory file. The model
  answers a fixed text.
\<close>

definition stub_env :: "(bytes, string) env" where
  "stub_env = \<lparr>
     image_open = (\<lambda>fp. if getvalue fp = gif_1x1 then Inr (getvalue fp)
                        else Inl (Exn LibraryError
                          (''cannot identify image file <_io.BytesIO object at 0x''
                           @ hex (address fp) @ ''>''))),
     generate_content = (\<lambda>prompt img. Inr ''Una persona sonriendo''),
     response_text = (\<lambda>response. Inr response)\<rparr>"

text \<open>The same, with a model call that fails.\<close>

definition stub_env_model_down :: "(bytes, string) env" where
  "stub_env_model_down =
     stub_env\<lparr>generate_content := (\<lambda>prompt img. Inl (Exn LibraryError ''quota exceeded''))\<rparr>"

text \<open>Reading a JSON body: the keys of an object in order, and the value under a key.\<close>

definition json_keys :: "json \<Rightarrow> string list" where
  "json_keys j = (case j of JObj kvs \<Rightarrow> map fst kvs | _ \<Rightarrow> [])"

definition json_get :: "json \<Rightarrow> string \<Rightarrow> json option" where
  "json_get j key = (case j of JObj kvs \<Rightarrow> map_of kvs key | _ \<Rightarrow> None)"

text \<open>
  Which strings the lenient decoder rejects, told from the string alone. A pad completes a
  quad when it follows the third alphabet character of the quad, or when it is the second
  of two pads that follow the second one; characters outside the alphabet do not count.
  \<open>pad_completes n s\<close>: some pad of \<open>s\<close> completes a quad, \<open>n\<close> alphabet characters
  having been read before \<open>s\<close>. \<open>next_is_pad s\<close>: the first character of \<open>s\<close> that is
  a pad or in the alphabet is a pad.
\<close>

fun next_is_pad :: "string \<Rightarrow> bool" where
  "next_is_pad [] = False"
| "next_is_pad (c # cs) =
     (if c = CHR ''='' then True
      else if table_a2b_base64 c \<noteq> None then False
      else next_is_pad cs)"

fun pad_completes :: "nat \<Rightarrow> string \<Rightarrow> bool" where
  "pad_completes n [] = False"
| "pad_completes n (c # cs) =
     (if c = CHR ''='' then
        n mod 4 = 3 \<or> (n mod 4 = 2 \<and> next_is_pad cs) \<or> pad_completes n cs
      else if table_a2b_base64 c \<noteq> None then pad_completes (Suc n) cs
      else pad_completes n cs)"

definition lenient_rejects :: "string \<Rightarrow> bool" where
  "lenient_rejects s =
     (list_ex (\<lambda>c. (of_char c :: nat) \<ge> 128) s
      \<or> (\<not> pad_completes 0 s
          \<and> length (filter (\<lambda>c. table_a2b_base64 c \<noteq> None) s) mod 4 \<noteq> 0))"

section \<open>Splitting at commas\<close>

lemma split_str_no_sep: "sep \<notin> set s \<Longrightarrow> split_str sep s = [s]"
  by (induction s) auto

lemma split_str_append:
  "sep \<notin> set p \<Longrightarrow> split_str sep (p @ sep # rest) = p # split_str sep rest"
  by (induction p) auto

lemma split_str_hd:
  "\<exists>ws. split_str sep s = takeWhile (\<lambda>c. c \<noteq> sep) s # ws"
  by (induction s) auto

lemma index1_split_none:
  "sep \<notin> set s \<Longrightarrow> index1 (split_str sep s) = Inl (Exn IndexError ''list index out of range'')"
  by (simp add: split_str_no_sep index1_def)

lemma index1_split_some:
  "sep \<in> set s \<Longrightarrow> index1 (split_str sep s) =
     Inr (takeWhile (\<lambda>c. c \<noteq> sep) (tl (dropWhile (\<lambda>c. c \<noteq> sep) s)))"
proof (induction s)
  case Nil
  then show ?case by simp
next
  case (Cons c cs)
  show ?case
  proof (cases "c = sep")
    case True
    obtain ws where "split_str sep cs = takeWhile (\<lambda>c. c \<noteq> sep) cs # ws"
      using split_str_hd by blast
    with True show ?thesis by (simp add: index1_def)
  next
    case False
    with Cons.prems have "sep \<in> set cs" by simp
    from Cons.IH [OF this] False show ?thesis
      by (auto simp: index1_def split: list.splits)
  qed
qed

section \<open>Decoding what was encoded\<close>

lemma six_bits_unat:
  assumes "take_bit 6 (v::byte) = v"
  shows "unat v < 64"
proof -
  have "unat v = take_bit 6 (unat v)"
    using assms by (metis unsigned_take_bit_eq)
  also have "\<dots> < 2 ^ 6" by (rule take_bit_nat_less_exp)
  finally show ?thesis by simp
qed

lemma b2a_code:
  assumes "unat v = n" "n < 64"
  shows "(of_char (table_b2a_base64 v) :: nat) =
     (if n < 26 then 65 + n
      else if n < 52 then 71 + n
      else if n < 62 then n - 4
      else if n = 62 then 43 else 47)"
  using assms by (auto simp add: table_b2a_base64_def Let_def)

lemma char_eq_code: "c = d \<longleftrightarrow> (of_char c :: nat) = of_char d"
  by simp

lemma a2b_b2a:
  assumes "take_bit 6 (v::byte) = v"
  shows "table_a2b_base64 (table_b2a_base64 v) = Some v"
proof -
  define n where "n = unat v"
  have n: "n < 64" unfolding n_def using assms by (rule six_bits_unat)
  have u: "unat v = n" by (simp add: n_def)
  have "table_a2b_base64 (table_b2a_base64 v) = Some (of_nat n)"
  proof (cases "n = 63")
    case True
    then show ?thesis
      unfolding table_a2b_base64_def Let_def b2a_code [OF u n] by simp
  next
    case False
    then show ?thesis
      unfolding table_a2b_base64_def Let_def b2a_code [OF u n]
      using n by (cases "n = 62") auto
  qed
  then show ?thesis by (simp add: n_def)
qed

lemma b2a_chars:
  assumes "take_bit 6 (v::byte) = v"
  shows "table_b2a_base64 v \<noteq> CHR ''=''" "table_b2a_base64 v \<noteq> CHR '',''"
    "(of_char (table_b2a_base64 v) :: nat) < 128"
proof -
  define n where "n = unat v"
  have n: "n < 64" unfolding n_def using assms by (rule six_bits_unat)
  have u: "unat v = n" by (simp add: n_def)
  show "table_b2a_base64 v \<noteq> CHR ''=''"
    unfolding char_eq_code [of _ "CHR ''=''"] b2a_code [OF u n] using n by auto
  show "table_b2a_base64 v \<noteq> CHR '',''"
    unfolding char_eq_code [of _ "CHR '',''"] b2a_code [OF u n] using n by auto
  show "(of_char (table_b2a_base64 v) :: nat) < 128"
    unfolding b2a_code [OF u n] using n by auto
qed

lemma and_3_take_bit: "(a::byte) AND 3 = take_bit 2 a"
  by (simp add: take_bit_eq_mask mask_eq_exp_minus_1)

lemma and_15_take_bit: "(a::byte) AND 15 = take_bit 4 a"
  by (simp add: take_bit_eq_mask mask_eq_exp_minus_1)

lemma and_63_take_bit: "(a::byte) AND 63 = take_bit 6 a"
  by (simp add: take_bit_eq_mask mask_eq_exp_minus_1)

lemma bit_byte_out: "8 \<le> n \<Longrightarrow> bit (a::byte) n = False"
  using bit_imp_le_length [of a n] by auto

lemma byte_eqI:
  assumes "bit a 0 = bit b 0" "bit a 1 = bit b 1" "bit a 2 = bit b 2" "bit a 3 = bit b 3"
    "bit a 4 = bit b 4" "bit a 5 = bit b 5" "bit a 6 = bit b 6" "bit a 7 = bit b 7"
  shows "(a::byte) = b"
proof (rule bit_word_eqI)
  fix n assume "n < LENGTH(8)"
  then have "n \<in> {0, 1, 2, 3, 4, 5, 6, 7}" by auto
  then show "bit a n = bit b n" using assms by auto
qed

lemmas byte_bits = bit_simps and_3_take_bit and_15_take_bit and_63_take_bit bit_byte_out

lemma sextet1: "take_bit 6 (drop_bit 2 (a::byte)) = drop_bit 2 a"
  by (rule byte_eqI) (simp_all add: byte_bits)

lemma sextet2:
  "take_bit 6 (push_bit 4 ((a::byte) AND 3) OR drop_bit 4 (b::byte))
     = push_bit 4 (a AND 3) OR drop_bit 4 b"
  by (rule byte_eqI) (simp_all add: byte_bits)

lemma sextet2_last: "take_bit 6 (push_bit 4 ((a::byte) AND 3)) = push_bit 4 (a AND 3)"
  by (rule byte_eqI) (simp_all add: byte_bits)

lemma sextet3:
  "take_bit 6 (push_bit 2 ((b::byte) AND 15) OR drop_bit 6 (c::byte))
     = push_bit 2 (b AND 15) OR drop_bit 6 c"
  by (rule byte_eqI) (simp_all add: byte_bits)

lemma sextet3_last: "take_bit 6 (push_bit 2 ((b::byte) AND 15)) = push_bit 2 (b AND 15)"
  by (rule byte_eqI) (simp_all add: byte_bits)

lemma sextet4: "take_bit 6 ((c::byte) AND 63) = c AND 63"
  by (simp add: and_63_take_bit)

lemma loop_data:
  assumes "take_bit 6 (v::byte) = v"
  shows "a2b_loop q l p out (table_b2a_base64 v # cs) =
     (if q = 0 then a2b_loop 1 v 0 out cs
      else if q = 1 then a2b_loop 2 (v AND 0x0f) 0 (out @ [push_bit 2 l OR drop_bit 4 v]) cs
      else if q = 2 then a2b_loop 3 (v AND 0x03) 0 (out @ [push_bit 4 l OR drop_bit 2 v]) cs
      else a2b_loop 0 0 0 (out @ [push_bit 6 l OR v]) cs)"
  using a2b_b2a [OF assms] b2a_chars(1) [OF assms] by simp

lemmas loop_sextets =
  loop_data [OF sextet1] loop_data [OF sextet2] loop_data [OF sextet2_last]
  loop_data [OF sextet3] loop_data [OF sextet3_last] loop_data [OF sextet4]

lemma loop_encode: "a2b_loop 0 l p out (b64encode bs) = Inr (out @ bs)"
proof (induction bs arbitrary: l p out rule: b64encode.induct)
  case 1
  show ?case by simp
next
  case (2 a)
  show ?case
    apply (simp add: loop_sextets del: a2b_loop.simps push_bit_and)
    apply simp
    apply (rule byte_eqI; simp add: byte_bits)
    done
next
  case (3 a b)
  show ?case
    apply (simp add: loop_sextets del: a2b_loop.simps push_bit_and)
    apply simp
    apply (rule conjI)
     apply (rule byte_eqI; simp add: byte_bits)
    apply (rule byte_eqI; simp add: byte_bits)
    done
next
  case (4 a b c rest)
  show ?case
    apply (simp add: loop_sextets 4 del: a2b_loop.simps push_bit_and)
    apply (intro conjI; rule byte_eqI; simp add: byte_bits)
    done
qed

lemma encode_chars:
  "c \<in> set (b64encode bs) \<Longrightarrow> c \<noteq> CHR '','' \<and> (of_char c :: nat) < 128"
proof (induction bs rule: b64encode.induct)
  case 1
  then show ?case by simp
next
  case (2 a)
  then show ?case
    using b2a_chars(2,3) [OF sextet1 [of a]] b2a_chars(2,3) [OF sextet2_last [of a]] by auto
next
  case (3 a b)
  then show ?case
    using b2a_chars(2,3) [OF sextet1 [of a]] b2a_chars(2,3) [OF sextet2 [of a b]]
      b2a_chars(2,3) [OF sextet3_last [of b]] by auto
next
  case (4 a b c rest)
  then show ?case
    using b2a_chars(2,3) [OF sextet1 [of a]] b2a_chars(2,3) [OF sextet2 [of a b]]
      b2a_chars(2,3) [OF sextet3 [of b c]] b2a_chars(2,3) [OF sextet4 [of c]] by auto
qed

lemma b64decode_b64encode: "b64decode (b64encode bs) = Inr bs"
proof -
  have "\<not> list_ex (\<lambda>c. (of_char c :: nat) \<ge> 128) (b64encode bs)"
    using encode_chars [of _ bs] by (fastforce simp: list_ex_iff)
  then show ?thesis
    by (simp add: b64decode_def a2b_base64_def loop_encode)
qed

lemma b64encode_no_comma: "CHR '','' \<notin> set (b64encode bs)"
  using encode_chars [of "CHR '',''" bs] by blast

section \<open>Valid base64 strings\<close>

text \<open>
  Every encoding is a valid base64 string, and the lenient decoder accepts every valid
  base64 string; the converse fails, since it also accepts strings that are not valid.
\<close>

lemma b2a_in_alphabet:
  assumes "take_bit 6 (v::byte) = v"
  shows "table_a2b_base64 (table_b2a_base64 v) \<noteq> None"
  using a2b_b2a [OF assms] by simp

lemma valid_base64_b64encode: "valid_base64 (b64encode bs)"
proof (induction bs rule: b64encode.induct)
  case 1
  show ?case by (simp add: valid_base64_def)
next
  case (2 a)
  show ?case
    using b2a_chars(1) [OF sextet1 [of a]] b2a_chars(1) [OF sextet2_last [of a]]
      b2a_in_alphabet [OF sextet1 [of a]] b2a_in_alphabet [OF sextet2_last [of a]]
    by (simp add: valid_base64_def del: push_bit_and)
next
  case (3 a b)
  show ?case
    using b2a_chars(1) [OF sextet1 [of a]] b2a_chars(1) [OF sextet2 [of a b]]
      b2a_chars(1) [OF sextet3_last [of b]]
      b2a_in_alphabet [OF sextet1 [of a]] b2a_in_alphabet [OF sextet2 [of a b]]
      b2a_in_alphabet [OF sextet3_last [of b]]
    by (simp add: valid_base64_def del: push_bit_and)
next
  case (4 a b c rest)
  then show ?case
    using b2a_chars(1) [OF sextet1 [of a]] b2a_chars(1) [OF sextet2 [of a b]]
      b2a_chars(1) [OF sextet3 [of b c]] b2a_chars(1) [OF sextet4 [of c]]
      b2a_in_alphabet [OF sextet1 [of a]] b2a_in_alphabet [OF sextet2 [of a b]]
      b2a_in_alphabet [OF sextet3 [of b c]] b2a_in_alphabet [OF sextet4 [of c]]
    by (simp add: valid_base64_def del: push_bit_and)
qed

lemma alphabet_char:
  assumes "table_a2b_base64 c \<noteq> None"
  shows "c \<noteq> CHR ''=''" "(of_char c :: nat) < 128"
proof -
  show "c \<noteq> CHR ''=''"
    using assms unfolding char_eq_code [of c "CHR ''=''"]
    by (auto simp: table_a2b_base64_def Let_def split: if_splits)
  show "(of_char c :: nat) < 128"
    using assms by (auto simp: table_a2b_base64_def Let_def split: if_splits)
qed

lemma loop_alphabet:
  assumes "list_all (\<lambda>c. table_a2b_base64 c \<noteq> None) cs" and "q < 4"
  shows "\<exists>l' p' out'. a2b_loop q l p out (cs @ rest)
       = a2b_loop ((q + length cs) mod 4) l' p' out' rest \<and> (cs \<noteq> [] \<longrightarrow> p' = 0)"
  using assms
proof (induction cs arbitrary: q l p out)
  case Nil
  then show ?case by auto
next
  case (Cons c cs)
  from Cons.prems obtain v where v: "table_a2b_base64 c = Some v"
    and cs: "list_all (\<lambda>c. table_a2b_base64 c \<noteq> None) cs" by auto
  have np: "c \<noteq> CHR ''=''" using alphabet_char(1) [of c] v by simp
  define q' where "q' = (q + 1) mod 4"
  have q': "q' < 4" by (simp add: q'_def)
  have "\<exists>l1 out1. a2b_loop q l p out ((c # cs) @ rest) = a2b_loop q' l1 0 out1 (cs @ rest)"
  proof -
    from Cons.prems(2) consider "q = 0" | "q = 1" | "q = 2" | "q = 3" by linarith
    then show ?thesis
    proof cases
      case 1
      then have "q' = 1" by (simp add: q'_def)
      with 1 v np show ?thesis by simp blast
    next
      case 2
      then have "q' = 2" by (simp add: q'_def)
      with 2 v np show ?thesis by simp blast
    next
      case 3
      then have "q' = 3" by (simp add: q'_def)
      with 3 v np show ?thesis by simp blast
    next
      case 4
      then have "q' = 0" by (simp add: q'_def)
      with 4 v np show ?thesis by simp blast
    qed
  qed
  then obtain l1 out1 where
    1: "a2b_loop q l p out ((c # cs) @ rest) = a2b_loop q' l1 0 out1 (cs @ rest)" by blast
  from Cons.IH [OF cs q', of l1 0 out1] obtain l' p' out' where
    2: "a2b_loop q' l1 0 out1 (cs @ rest) = a2b_loop ((q' + length cs) mod 4) l' p' out' rest"
    and 3: "cs \<noteq> [] \<longrightarrow> p' = 0" by blast
  have 4: "cs = [] \<longrightarrow> a2b_loop q' l1 0 out1 (cs @ rest)
      = a2b_loop ((q' + length cs) mod 4) l1 0 out1 rest"
    using q' by simp
  have 5: "(q' + length cs) mod 4 = (q + length (c # cs)) mod 4"
    by (simp add: q'_def mod_simps)
  show ?case
  proof (cases "cs = []")
    case True
    with 1 4 5 show ?thesis by (metis list.distinct(1))
  next
    case False
    with 1 2 3 5 show ?thesis by metis
  qed
qed

lemma valid_base64_decodes:
  assumes "valid_base64 s"
  shows "\<exists>bs. b64decode s = Inr bs"
proof -
  define body where "body = takeWhile (\<lambda>c. c \<noteq> CHR ''='') s"
  define pad where "pad = dropWhile (\<lambda>c. c \<noteq> CHR ''='') s"
  have s: "s = body @ pad" by (simp add: body_def pad_def)
  from assms have len: "length s mod 4 = 0"
    and al: "list_all (\<lambda>c. table_a2b_base64 c \<noteq> None) body"
    and pd: "pad = [] \<or> pad = ''='' \<or> pad = ''==''"
    by (simp_all add: valid_base64_def body_def pad_def Let_def)
  have ascii: "\<not> list_ex (\<lambda>c. (of_char c :: nat) \<ge> 128) s"
  proof -
    have "\<forall>c\<in>set body. (of_char c :: nat) < 128"
      using al alphabet_char(2) by (auto simp: list_all_iff)
    moreover have "\<forall>c\<in>set pad. (of_char c :: nat) < 128"
      using pd by auto
    ultimately show ?thesis by (fastforce simp: s list_ex_iff)
  qed
  from loop_alphabet [OF al, of 0 0 0 "[]" pad] obtain l' p' out' where
    run: "a2b_loop 0 0 0 [] (body @ pad) = a2b_loop (length body mod 4) l' p' out' pad"
    and p': "body \<noteq> [] \<longrightarrow> p' = 0" by auto
  have "\<exists>bs. a2b_loop (length body mod 4) l' p' out' pad = Inr bs"
    using pd
  proof (elim disjE)
    assume "pad = []"
    with len s show ?thesis by simp
  next
    assume e: "pad = ''=''"
    with len s have "length body mod 4 = 3" by (simp add: mod_Suc_eq_mod_add3) presburger
    with e show ?thesis by simp
  next
    assume e: "pad = ''==''"
    with len s have m: "length body mod 4 = 2" by simp presburger
    then have "body \<noteq> []" by auto
    with p' have "p' = 0" by simp
    with e m show ?thesis by simp
  qed
  with run ascii show ?thesis
    by (simp add: b64decode_def a2b_base64_def s)
qed

section \<open>The strings that the lenient decoder rejects\<close>

lemma pad_not_data: "table_a2b_base64 (CHR ''='') = None"
  by (simp add: table_a2b_base64_def)

lemma loop_rejects:
  "isl (a2b_loop (n mod 4) l p out s) =
     (\<not> (pad_completes n s \<or> (n mod 4 = 2 \<and> p \<ge> 1 \<and> next_is_pad s)
         \<or> (n + length (filter (\<lambda>c. table_a2b_base64 c \<noteq> None) s)) mod 4 = 0))"
proof (induction s arbitrary: n l p out)
  case Nil
  show ?case by simp
next
  case (Cons c cs)
  consider (pad) "c = CHR ''=''" | (data) v where "c \<noteq> CHR ''=''" "table_a2b_base64 c = Some v"
    | (skip) "c \<noteq> CHR ''=''" "table_a2b_base64 c = None"
    by (cases "table_a2b_base64 c") auto
  then show ?case
  proof cases
    case pad
    have q: "n mod 4 = 0 \<or> n mod 4 = 1 \<or> n mod 4 = 2 \<or> n mod 4 = 3" by presburger
    then show ?thesis
    proof (elim disjE)
      assume "n mod 4 = 3"
      with pad show ?thesis by simp
    next
      assume q2: "n mod 4 = 2"
      show ?thesis
      proof (cases "p \<ge> 1")
        case True
        with pad q2 show ?thesis by simp
      next
        case False
        then have "p = 0" by simp
        with pad q2 Cons.IH [of n l 1 out] show ?thesis by (auto simp: pad_not_data)
      qed
    next
      assume "n mod 4 = 0"
      with pad Cons.IH [of n l p out] show ?thesis by (simp add: pad_not_data)
    next
      assume "n mod 4 = 1"
      with pad Cons.IH [of n l p out] show ?thesis by (simp add: pad_not_data)
    qed
  next
    case data
    have q: "n mod 4 = 0 \<or> n mod 4 = 1 \<or> n mod 4 = 2 \<or> n mod 4 = 3" by presburger
    then show ?thesis
    proof (elim disjE)
      assume q0: "n mod 4 = 0"
      then have "Suc n mod 4 = 1" by presburger
      with q0 data Cons.IH [of "Suc n" v 0 out] show ?thesis by simp
    next
      assume q1: "n mod 4 = 1"
      then have "Suc n mod 4 = 2" by presburger
      with q1 data Cons.IH [of "Suc n" "v AND 0x0f" 0 "out @ [push_bit 2 l OR drop_bit 4 v]"]
      show ?thesis by simp
    next
      assume q2: "n mod 4 = 2"
      then have "Suc n mod 4 = 3" by presburger
      with q2 data Cons.IH [of "Suc n" "v AND 0x03" 0 "out @ [push_bit 4 l OR drop_bit 2 v]"]
      show ?thesis by simp
    next
      assume q3: "n mod 4 = 3"
      then have "Suc n mod 4 = 0" by presburger
      with q3 data Cons.IH [of "Suc n" 0 0 "out @ [push_bit 6 l OR v]"]
      show ?thesis by simp
    qed
  next
    case skip
    with Cons.IH [of n l p out] show ?thesis by simp
  qed
qed

lemma b64decode_rejects: "isl (b64decode s) = lenient_rejects s"
  using loop_rejects [of 0 0 0 "[]" s]
  by (simp add: b64decode_def a2b_base64_def lenient_rejects_def)

lemma pad_completes_no_pad: "CHR ''='' \<notin> set s \<Longrightarrow> \<not> pad_completes n s"
  by (induction s arbitrary: n) auto

section \<open>The handler on string images\<close>

lemma analizar_raises:
  "analizar_try E a req = Inl e \<Longrightarrow>
     analizar E a req console =
       (\<lparr>status_code = 500,
         json_body = JObj [(''error'', JStr (str_exn e)), (''status'', JStr ''error'')]\<rparr>,
        console @ [''Error: '' @ str_exn e])"
  by (simp add: analizar_def jsonify_def)

lemma analizar_returns:
  "analizar_try E a req = Inr r \<Longrightarrow> analizar E a req console = (r, console)"
  by (simp add: analizar_def)

lemma analizar_try_string:
  "getitem data ''image'' = Inr (JStr s) \<Longrightarrow>
     analizar_try E a (Inr data) =
       (case index1 (split_str (CHR '','') s) of
          Inl e \<Rightarrow> Inl e
        | Inr image_base64 \<Rightarrow>
            (case b64decode image_base64 of
               Inl e \<Rightarrow> Inl e
             | Inr image_bytes \<Rightarrow>
                 (case analizar_imagen E a image_bytes of
                    Inl e \<Rightarrow> Inl e
                  | Inr descripcion \<Rightarrow>
                      Inr \<lparr>status_code = 200,
                           json_body = JObj [(''descripcion'', JStr descripcion),
                                             (''status'', JStr ''success'')]\<rparr>)))"
  by (simp add: analizar_try_def split_comma_def jsonify_def split: sum.splits)

lemma analizar_try_segment:
  assumes "getitem data ''image'' = Inr (JStr s)" and "CHR '','' \<in> set s"
  shows "analizar_try E a (Inr data) =
       (case b64decode (takeWhile (\<lambda>c. c \<noteq> CHR '','') (tl (dropWhile (\<lambda>c. c \<noteq> CHR '','') s))) of
          Inl e \<Rightarrow> Inl e
        | Inr image_bytes \<Rightarrow>
            (case analizar_imagen E a image_bytes of
               Inl e \<Rightarrow> Inl e
             | Inr descripcion \<Rightarrow>
                 Inr \<lparr>status_code = 200,
                      json_body = JObj [(''descripcion'', JStr descripcion),
                                        (''status'', JStr ''success'')]\<rparr>))"
  using analizar_try_string [OF assms(1), of E a] index1_split_some [OF assms(2)] by simp

lemma gif_payload:
  "b64encode gif_1x1 = ''R0lGODlhAQABAIAAAAAAAP///yH5BAEAAAAALAAAAAABAAEAAAIBRAA7''"
  by code_simp

lemma getitem_image: "getitem (JObj [(''image'', v)]) ''image'' = Inr v"
  by (simp add: getitem_def)

lemma hex_address_1: "hex 0x7F9C8C0B3D10 = ''7f9c8c0b3d10''"
  by (simp add: hex.simps) code_simp

lemma hex_address_2: "hex 0x7F9C8C0B3E50 = ''7f9c8c0b3e50''"
  by (simp add: hex.simps) code_simp

lemma stub_env_simps:
  "image_open stub_env \<lparr>address = a, getvalue = gif_1x1\<rparr> = Inr gif_1x1"
  "generate_content stub_env p i = Inr ''Una persona sonriendo''"
  "response_text stub_env r = Inr r"
  by (simp_all add: stub_env_def)

lemma stub_env_rejects_ABC:
  "image_open stub_env \<lparr>address = a, getvalue = [65, 66, 67]\<rparr> =
     Inl (Exn LibraryError
       (''cannot identify image file <_io.BytesIO object at 0x'' @ hex a @ ''>''))"
  by (simp add: stub_env_def gif_1x1_def)

lemma stub_env_opens_by_bytes:
  "\<forall>a a' b img. image_open stub_env \<lparr>address = a, getvalue = b\<rparr> = Inr img \<longrightarrow>
     image_open stub_env \<lparr>address = a', getvalue = b\<rparr> = Inr img"
  by (simp add: stub_env_def)

lemma stub_env_model_down_simps:
  "image_open stub_env_model_down \<lparr>address = a, getvalue = gif_1x1\<rparr> = Inr gif_1x1"
  "generate_content stub_env_model_down p i = Inl (Exn LibraryError ''quota exceeded'')"
  by (simp_all add: stub_env_model_down_def stub_env_def)

lemma gif_decode:
  "b64decode ''R0lGODlhAQABAIAAAAAAAP///yH5BAEAAAAALAAAAAABAAEAAAIBRAA7'' = Inr gif_1x1"
  using b64decode_b64encode [of gif_1x1] by (simp only: gif_payload)

lemma ABC_decode: "b64decode ''QUJD'' = Inr [65, 66, 67]"
  by (simp add: b64decode_def a2b_base64_def table_a2b_base64_def)

lemma gif_url_parts:
  "split_str (CHR '','') ''data:image/gif;base64,R0lGODlhAQABAIAAAAAAAP///yH5BAEAAAAALAAAAAABAAEAAAIBRAA7''
     = [''data:image/gif;base64'', ''R0lGODlhAQABAIAAAAAAAP///yH5BAEAAAAALAAAAAABAAEAAAIBRAA7'']"
  by simp

lemma stub_analizar_imagen: "analizar_imagen stub_env a gif_1x1 = Inr ''Una persona sonriendo''"
  by (simp add: analizar_imagen_def stub_env_simps)

lemma stub_env_run:
  assumes "index1 (split_str (CHR '','') s) = Inr image_base64"
    and "b64decode image_base64 = Inr gif_1x1"
  shows "analizar stub_env a (Inr (JObj [(''image'', JStr s)])) console =
     (\<lparr>status_code = 200,
       json_body = JObj [(''descripcion'', JStr ''Una persona sonriendo''),
                         (''status'', JStr ''success'')]\<rparr>,
      console)"
proof -
  have "analizar_try stub_env a (Inr (JObj [(''image'', JStr s)])) =
      Inr \<lparr>status_code = 200,
           json_body = JObj [(''descripcion'', JStr ''Una persona sonriendo''),
                             (''status'', JStr ''success'')]\<rparr>"
    using analizar_try_string [OF getitem_image, of stub_env a s] assms
    by (simp add: stub_analizar_imagen)
  then show ?thesis by (rule analizar_returns)
qed

lemma stub_env_run_ABC:
  "analizar stub_env a (Inr (JObj [(''image'', JStr ''data:image/gif;base64,QUJD'')])) console =
     (\<lparr>status_code = 500,
       json_body = JObj [(''error'', JStr (''cannot identify image file <_io.BytesIO object at 0x''
                            @ hex a @ ''>'')), (''status'', JStr ''error'')]\<rparr>,
      console @ [''Error: cannot identify image file <_io.BytesIO object at 0x'' @ hex a @ ''>''])"
proof -
  have "index1 (split_str (CHR '','') ''data:image/gif;base64,QUJD'') = Inr ''QUJD''"
    by (simp add: index1_def)
  then have "analizar_try stub_env a (Inr (JObj [(''image'', JStr ''data:image/gif;base64,QUJD'')])) =
      Inl (Exn LibraryError (''cannot identify image file <_io.BytesIO object at 0x'' @ hex a @ ''>''))"
    using analizar_try_string [OF getitem_image, of stub_env a "''data:image/gif;base64,QUJD''"]
    by (simp add: ABC_decode analizar_imagen_def stub_env_rejects_ABC)
  from analizar_raises [OF this, of console] show ?thesis by simp
qed

section \<open>Claims\<close>

text \<open>
  C1. A request whose image field is a data URL (a prefix without comma, a comma, then the
  base64 encoding of the bytes of a file that the image library opens), with a model that
  answers a text, is answered by 200 with the body
  \<open>{descripcion: text, status: success}\<close>; nothing is printed.
\<close>

theorem analizar_data_url_success:
  assumes "getitem data ''image'' = Inr (JStr (prefix @ '','' @ b64encode image_bytes))"
    and "CHR '','' \<notin> set prefix"
    and "image_open E \<lparr>address = a, getvalue = image_bytes\<rparr> = Inr img"
    and "generate_content E PROMPT img = Inr response"
    and "response_text E response = Inr text"
  shows "analizar E a (Inr data) console =
     (\<lparr>status_code = 200,
       json_body = JObj [(''descripcion'', JStr text), (''status'', JStr ''success'')]\<rparr>,
      console)"
proof -
  have "split_str (CHR '','') (prefix @ CHR '','' # b64encode image_bytes)
      = [prefix, b64encode image_bytes]"
    using assms(2) by (simp add: split_str_append split_str_no_sep b64encode_no_comma)
  then have "index1 (split_str (CHR '','') (prefix @ '','' @ b64encode image_bytes))
      = Inr (b64encode image_bytes)"
    by (simp add: index1_def)
  moreover have "analizar_imagen E a image_bytes = Inr text"
    using assms(3-5) by (simp add: analizar_imagen_def)
  ultimately show ?thesis
    using analizar_try_string [OF assms(1), of E a]
    by (simp add: b64decode_b64encode analizar_returns)
qed

theorem analizar_data_url_success_witness:
  "analizar stub_env 0x7F9C8C0B3D10
     (Inr (JObj [(''image'', JStr (''data:image/gif;base64,R0lGODlhAQABAIAAAAAAAP///yH5BAEAAAAALAAAAAABAAEAAAIBRAA7''))])) []
   = (\<lparr>status_code = 200,
       json_body = JObj [(''descripcion'', JStr ''Una persona sonriendo''),
                         (''status'', JStr ''success'')]\<rparr>, [])"
proof -
  have 1: "getitem (JObj [(''image'', JStr (''data:image/gif;base64,R0lGODlhAQABAIAAAAAAAP///yH5BAEAAAAALAAAAAABAAEAAAIBRAA7''))]) ''image''
      = Inr (JStr (''data:image/gif;base64'' @ '','' @ b64encode gif_1x1))"
    by (simp add: getitem_image gif_payload)
  have 2: "CHR '','' \<notin> set ''data:image/gif;base64''" by simp
  show ?thesis
    by (rule analizar_data_url_success [OF 1 2 stub_env_simps(1) stub_env_simps(2) stub_env_simps(3)])
qed

text \<open>
  C2. Whatever step of the handler raises (reading the JSON body, the missing image
  field, the split of a value that is not a string, the missing second part, the base64
  decoder, the image library, the model call or the text of its answer), the handler
  answers 500 with the body \<open>{error: str(e), status: error}\<close> and prints one line
  \<open>Error: str(e)\<close>. The handler is a total function: the exception does not leave it.
\<close>

theorem analizar_exception_response:
  assumes "req = Inl e
     \<or> (req = Inr data \<and> getitem data ''image'' = Inl e)
     \<or> (req = Inr data \<and> getitem data ''image'' = Inr image_data
          \<and> split_comma image_data = Inl e)
     \<or> (req = Inr data \<and> getitem data ''image'' = Inr image_data
          \<and> split_comma image_data = Inr parts \<and> index1 parts = Inl e)
     \<or> (req = Inr data \<and> getitem data ''image'' = Inr image_data
          \<and> split_comma image_data = Inr parts \<and> index1 parts = Inr image_base64
          \<and> b64decode image_base64 = Inl e)
     \<or> (req = Inr data \<and> getitem data ''image'' = Inr image_data
          \<and> split_comma image_data = Inr parts \<and> index1 parts = Inr image_base64
          \<and> b64decode image_base64 = Inr image_bytes
          \<and> image_open E \<lparr>address = a, getvalue = image_bytes\<rparr> = Inl e)
     \<or> (req = Inr data \<and> getitem data ''image'' = Inr image_data
          \<and> split_comma image_data = Inr parts \<and> index1 parts = Inr image_base64
          \<and> b64decode image_base64 = Inr image_bytes
          \<and> image_open E \<lparr>address = a, getvalue = image_bytes\<rparr> = Inr img
          \<and> generate_content E PROMPT img = Inl e)
     \<or> (req = Inr data \<and> getitem data ''image'' = Inr image_data
          \<and> split_comma image_data = Inr parts \<and> index1 parts = Inr image_base64
          \<and> b64decode image_base64 = Inr image_bytes
          \<and> image_open E \<lparr>address = a, getvalue = image_bytes\<rparr> = Inr img
          \<and> generate_content E PROMPT img = Inr response
          \<and> response_text E response = Inl e)"
  shows "analizar E a req console =
     (\<lparr>status_code = 500,
       json_body = JObj [(''error'', JStr (str_exn e)), (''status'', JStr ''error'')]\<rparr>,
      console @ [''Error: '' @ str_exn e])"
proof -
  have "analizar_try E a req = Inl e"
    using assms by (auto simp: analizar_try_def analizar_imagen_def)
  then show ?thesis by (rule analizar_raises)
qed

theorem analizar_exception_response_witness:
  "analizar stub_env 0x7F9C8C0B3D10 (Inr (JObj [(''foto'', JStr ''x'')])) []
     = (\<lparr>status_code = 500,
         json_body = JObj [(''error'', JStr (quoted ''image'')), (''status'', JStr ''error'')]\<rparr>,
        [''Error: '' @ quoted ''image''])
   \<and> analizar stub_env 0x7F9C8C0B3D10
       (Inr (JObj [(''image'', JStr ''data:image/gif;base64,R0lGOD'')])) []
     = (\<lparr>status_code = 500,
         json_body = JObj [(''error'', JStr ''Incorrect padding''), (''status'', JStr ''error'')]\<rparr>,
        [''Error: Incorrect padding''])
   \<and> analizar stub_env 0x7F9C8C0B3D10
       (Inr (JObj [(''image'', JStr ''data:image/gif;base64,QUJD'')])) []
     = (\<lparr>status_code = 500,
         json_body = JObj [(''error'', JStr ''cannot identify image file <_io.BytesIO object at 0x7f9c8c0b3d10>''),
                           (''status'', JStr ''error'')]\<rparr>,
        [''Error: cannot identify image file <_io.BytesIO object at 0x7f9c8c0b3d10>''])
   \<and> analizar stub_env_model_down 0x7F9C8C0B3D10
       (Inr (JObj [(''image'', JStr ''data:image/gif;base64,R0lGODlhAQABAIAAAAAAAP///yH5BAEAAAAALAAAAAABAAEAAAIBRAA7'')])) []
     = (\<lparr>status_code = 500,
         json_body = JObj [(''error'', JStr ''quota exceeded''), (''status'', JStr ''error'')]\<rparr>,
        [''Error: quota exceeded''])"
proof -
  have a: "getitem (JObj [(''foto'', JStr ''x'')]) ''image'' = Inl (Exn KeyError (quoted ''image''))"
    by (simp add: getitem_def)
  have b: "split_comma (JStr ''data:image/gif;base64,R0lGOD'') = Inr [''data:image/gif;base64'', ''R0lGOD'']"
    "index1 [''data:image/gif;base64'', ''R0lGOD''] = Inr ''R0lGOD''"
    "b64decode ''R0lGOD'' = Inl (Exn BinasciiError ''Incorrect padding'')"
    by (simp_all add: split_comma_def index1_def b64decode_def a2b_base64_def table_a2b_base64_def)
  have c: "split_comma (JStr ''data:image/gif;base64,QUJD'') = Inr [''data:image/gif;base64'', ''QUJD'']"
    "index1 [''data:image/gif;base64'', ''QUJD''] = Inr ''QUJD''"
    "image_open stub_env \<lparr>address = 0x7F9C8C0B3D10, getvalue = [65, 66, 67]\<rparr>
       = Inl (Exn LibraryError ''cannot identify image file <_io.BytesIO object at 0x7f9c8c0b3d10>'')"
    by (simp_all add: split_comma_def index1_def stub_env_rejects_ABC hex_address_1)
  have d: "split_comma (JStr ''data:image/gif;base64,R0lGODlhAQABAIAAAAAAAP///yH5BAEAAAAALAAAAAABAAEAAAIBRAA7'')
       = Inr [''data:image/gif;base64'', ''R0lGODlhAQABAIAAAAAAAP///yH5BAEAAAAALAAAAAABAAEAAAIBRAA7'']"
    "index1 [''data:image/gif;base64'', ''R0lGODlhAQABAIAAAAAAAP///yH5BAEAAAAALAAAAAABAAEAAAIBRAA7'']
       = Inr ''R0lGODlhAQABAIAAAAAAAP///yH5BAEAAAAALAAAAAABAAEAAAIBRAA7''"
    by (simp_all add: split_comma_def index1_def)
  show ?thesis
    using
      analizar_exception_response [of _ "Exn KeyError (quoted ''image'')"
        "JObj [(''foto'', JStr ''x'')]" _ _ _ _ stub_env "0x7F9C8C0B3D10" _ _ "[]"]
      analizar_exception_response [of _ "Exn BinasciiError ''Incorrect padding''"
        "JObj [(''image'', JStr ''data:image/gif;base64,R0lGOD'')]"
        "JStr ''data:image/gif;base64,R0lGOD''" "[''data:image/gif;base64'', ''R0lGOD'']"
        "''R0lGOD''" _ stub_env "0x7F9C8C0B3D10" _ _ "[]"]
      analizar_exception_response [of _
        "Exn LibraryError ''cannot identify image file <_io.BytesIO object at 0x7f9c8c0b3d10>''"
        "JObj [(''image'', JStr ''data:image/gif;base64,QUJD'')]"
        "JStr ''data:image/gif;base64,QUJD''" "[''data:image/gif;base64'', ''QUJD'']"
        "''QUJD''" "[65, 66, 67]" stub_env "0x7F9C8C0B3D10" _ _ "[]"]
      analizar_exception_response [of _ "Exn LibraryError ''quota exceeded''"
        "JObj [(''image'', JStr ''data:image/gif;base64,R0lGODlhAQABAIAAAAAAAP///yH5BAEAAAAALAAAAAABAAEAAAIBRAA7'')]"
        "JStr ''data:image/gif;base64,R0lGODlhAQABAIAAAAAAAP///yH5BAEAAAAALAAAAAABAAEAAAIBRAA7''"
        "[''data:image/gif;base64'', ''R0lGODlhAQABAIAAAAAAAP///yH5BAEAAAAALAAAAAABAAEAAAIBRAA7'']"
        "''R0lGODlhAQABAIAAAAAAAP///yH5BAEAAAAALAAAAAABAAEAAAIBRAA7''" gif_1x1
        stub_env_model_down "0x7F9C8C0B3D10" gif_1x1 _ "[]"]
    by (simp add: a b c d ABC_decode gif_decode getitem_image stub_env_model_down_simps)
qed

text \<open>
  C3, as amended. An image string without a comma gets the error answer (500, index out
  of range). A string with a comma is not rejected for the number of its commas: with one
  comma or with several, it is answered by 200 exactly when the segment between its first
  comma and the next one (or the end of the string) decodes and the image analysis
  succeeds on the decoded bytes.
\<close>

theorem analizar_comma_count:
  assumes "getitem data ''image'' = Inr (JStr s)"
  shows "(CHR '','' \<notin> set s \<longrightarrow>
            analizar E a (Inr data) console =
              (\<lparr>status_code = 500,
                json_body = JObj [(''error'', JStr ''list index out of range''),
                                  (''status'', JStr ''error'')]\<rparr>,
               console @ [''Error: list index out of range'']))
     \<and> (CHR '','' \<in> set s \<longrightarrow>
            (status_code (fst (analizar E a (Inr data) console)) = 200) =
            (\<exists>image_bytes descripcion.
               b64decode (takeWhile (\<lambda>c. c \<noteq> CHR '','') (tl (dropWhile (\<lambda>c. c \<noteq> CHR '','') s)))
                 = Inr image_bytes
               \<and> analizar_imagen E a image_bytes = Inr descripcion))"
proof (intro conjI impI)
  assume "CHR '','' \<notin> set s"
  then have "analizar_try E a (Inr data) = Inl (Exn IndexError ''list index out of range'')"
    using analizar_try_string [OF assms, of E a] by (simp add: index1_split_none)
  from analizar_raises [OF this]
  show "analizar E a (Inr data) console =
      (\<lparr>status_code = 500,
        json_body = JObj [(''error'', JStr ''list index out of range''),
                          (''status'', JStr ''error'')]\<rparr>,
       console @ [''Error: list index out of range''])"
    by simp
next
  assume "CHR '','' \<in> set s"
  from analizar_try_segment [OF assms this, of E a]
  show "(status_code (fst (analizar E a (Inr data) console)) = 200) =
      (\<exists>image_bytes descripcion.
         b64decode (takeWhile (\<lambda>c. c \<noteq> CHR '','') (tl (dropWhile (\<lambda>c. c \<noteq> CHR '','') s)))
           = Inr image_bytes
         \<and> analizar_imagen E a image_bytes = Inr descripcion)"
    by (auto simp: analizar_def jsonify_def split: sum.splits)
qed

theorem analizar_comma_count_witness:
  "analizar stub_env 0x7F9C8C0B3D10 (Inr (JObj [(''image'', JStr ''not-a-data-url'')])) [] =
     (\<lparr>status_code = 500,
       json_body = JObj [(''error'', JStr ''list index out of range''),
                         (''status'', JStr ''error'')]\<rparr>,
      [''Error: list index out of range''])
   \<and> status_code (fst (analizar stub_env 0x7F9C8C0B3D10
        (Inr (JObj [(''image'', JStr ''data:image/gif;base64,R0lGODlhAQABAIAAAAAAAP///yH5BAEAAAAALAAAAAABAAEAAAIBRAA7,more,text'')])) []))
     = 200"
proof -
  have a1: "getitem (JObj [(''image'', JStr ''not-a-data-url'')]) ''image'' = Inr (JStr ''not-a-data-url'')"
    by (rule getitem_image)
  have a2: "CHR '','' \<notin> set ''not-a-data-url''" by simp
  have b1: "getitem (JObj [(''image'', JStr ''data:image/gif;base64,R0lGODlhAQABAIAAAAAAAP///yH5BAEAAAAALAAAAAABAAEAAAIBRAA7,more,text'')]) ''image''
      = Inr (JStr ''data:image/gif;base64,R0lGODlhAQABAIAAAAAAAP///yH5BAEAAAAALAAAAAABAAEAAAIBRAA7,more,text'')"
    by (rule getitem_image)
  have b2: "CHR '','' \<in> set ''data:image/gif;base64,R0lGODlhAQABAIAAAAAAAP///yH5BAEAAAAALAAAAAABAAEAAAIBRAA7,more,text''"
    by simp
  have b3: "takeWhile (\<lambda>c. c \<noteq> CHR '','') (tl (dropWhile (\<lambda>c. c \<noteq> CHR '','')
      ''data:image/gif;base64,R0lGODlhAQABAIAAAAAAAP///yH5BAEAAAAALAAAAAABAAEAAAIBRAA7,more,text''))
      = ''R0lGODlhAQABAIAAAAAAAP///yH5BAEAAAAALAAAAAABAAEAAAIBRAA7''"
    by simp
  have b4: "\<exists>image_bytes descripcion.
      b64decode ''R0lGODlhAQABAIAAAAAAAP///yH5BAEAAAAALAAAAAABAAEAAAIBRAA7'' = Inr image_bytes
      \<and> analizar_imagen stub_env 0x7F9C8C0B3D10 image_bytes = Inr descripcion"
    using gif_decode stub_analizar_imagen by blast
  from analizar_comma_count [OF a1, of stub_env "0x7F9C8C0B3D10" "[]"] a2
  have 1: "analizar stub_env 0x7F9C8C0B3D10 (Inr (JObj [(''image'', JStr ''not-a-data-url'')])) [] =
     (\<lparr>status_code = 500,
       json_body = JObj [(''error'', JStr ''list index out of range''),
                         (''status'', JStr ''error'')]\<rparr>,
      [''Error: list index out of range''])"
    by simp
  from analizar_comma_count [OF b1, of stub_env "0x7F9C8C0B3D10" "[]"] b2 b4
  have 2: "status_code (fst (analizar stub_env 0x7F9C8C0B3D10
        (Inr (JObj [(''image'', JStr ''data:image/gif;base64,R0lGODlhAQABAIAAAAAAAP///yH5BAEAAAAALAAAAAABAAEAAAIBRAA7,more,text'')])) []))
     = 200"
    by (simp only: b3)
  from 1 2 show ?thesis by (rule conjI)
qed

text \<open>
  The claim as stated fails: a string with three commas whose second part decodes to an
  image is answered by 200.
\<close>

theorem two_commas_rejected_counterexample:
  "length (filter (\<lambda>c. c = CHR '','')
       ''data:image/gif;base64,R0lGODlhAQABAIAAAAAAAP///yH5BAEAAAAALAAAAAABAAEAAAIBRAA7,more,text'') = 3
   \<and> analizar stub_env 0x7F9C8C0B3D10
       (Inr (JObj [(''image'', JStr ''data:image/gif;base64,R0lGODlhAQABAIAAAAAAAP///yH5BAEAAAAALAAAAAABAAEAAAIBRAA7,more,text'')])) []
     = (\<lparr>status_code = 200,
         json_body = JObj [(''descripcion'', JStr ''Una persona sonriendo''),
                           (''status'', JStr ''success'')]\<rparr>, [])"
proof -
  have "index1 (split_str (CHR '','')
      ''data:image/gif;base64,R0lGODlhAQABAIAAAAAAAP///yH5BAEAAAAALAAAAAABAAEAAAIBRAA7,more,text'')
      = Inr ''R0lGODlhAQABAIAAAAAAAP///yH5BAEAAAAALAAAAAABAAEAAAIBRAA7''"
    by (simp add: index1_def)
  from stub_env_run [OF this gif_decode, of "0x7F9C8C0B3D10" "[]"] show ?thesis by simp
qed

text \<open>
  C4, as amended. For an image string with a comma, the segment passed to the base64
  decoder is the text between the first comma and the second one (or the end of the
  string when there is no second comma), and the rest of the handler runs on it.
\<close>

theorem segment_between_commas:
  assumes "getitem data ''image'' = Inr (JStr s)" and "CHR '','' \<in> set s"
  shows "index1 (split_str (CHR '','') s) =
       Inr (takeWhile (\<lambda>c. c \<noteq> CHR '','') (tl (dropWhile (\<lambda>c. c \<noteq> CHR '','') s)))
     \<and> analizar_try E a (Inr data) =
       (case b64decode (takeWhile (\<lambda>c. c \<noteq> CHR '','') (tl (dropWhile (\<lambda>c. c \<noteq> CHR '','') s))) of
          Inl e \<Rightarrow> Inl e
        | Inr image_bytes \<Rightarrow>
            (case analizar_imagen E a image_bytes of
               Inl e \<Rightarrow> Inl e
             | Inr descripcion \<Rightarrow>
                 Inr \<lparr>status_code = 200,
                      json_body = JObj [(''descripcion'', JStr descripcion),
                                        (''status'', JStr ''success'')]\<rparr>))"
  using analizar_try_string [OF assms(1), of E a] index1_split_some [OF assms(2)] by simp

theorem segment_between_commas_witness:
  "index1 (split_str (CHR '','') ''data:image/gif;base64,R0lG,AAAA'') = Inr ''R0lG''"
proof -
  have 1: "getitem (JObj [(''image'', JStr ''data:image/gif;base64,R0lG,AAAA'')]) ''image''
      = Inr (JStr ''data:image/gif;base64,R0lG,AAAA'')"
    by (rule getitem_image)
  have 2: "CHR '','' \<in> set ''data:image/gif;base64,R0lG,AAAA''" by simp
  from segment_between_commas [OF 1 2, THEN conjunct1] show ?thesis by simp
qed

text \<open>
  The claim as stated fails: with two commas, the segment is not the whole rest of the
  string after the first comma.
\<close>

theorem segment_after_first_comma_counterexample:
  "CHR '','' \<in> set ''data:image/gif;base64,R0lG,AAAA''
   \<and> tl (dropWhile (\<lambda>c. c \<noteq> CHR '','') ''data:image/gif;base64,R0lG,AAAA'') = ''R0lG,AAAA''
   \<and> index1 (split_str (CHR '','') ''data:image/gif;base64,R0lG,AAAA'') = Inr ''R0lG''
   \<and> index1 (split_str (CHR '','') ''data:image/gif;base64,R0lG,AAAA'')
       \<noteq> Inr (tl (dropWhile (\<lambda>c. c \<noteq> CHR '','') ''data:image/gif;base64,R0lG,AAAA''))"
  by (simp add: index1_def)

text \<open>
  C5, as amended. For an image string with a comma, the base64 step fails, and the handler
  answers 500 with status error and the decoder's message, exactly when the segment between
  the first comma and the next one has a character that is not ASCII, or has a number of
  alphabet characters that is not a multiple of four and no pad that completes a quad (a
  \<open>=\<close> after the third alphabet character of a quad, or two \<open>=\<close> after the second,
  characters outside the alphabet not counting). In particular a segment without \<open>=\<close>
  whose number of alphabet characters is not a multiple of four is rejected. Every other
  segment is decoded, valid base64 or not, and the handler goes on to the image analysis.
\<close>

theorem analizar_base64_step:
  assumes "getitem data ''image'' = Inr (JStr s)" and "CHR '','' \<in> set s"
    and "image_base64 = takeWhile (\<lambda>c. c \<noteq> CHR '','') (tl (dropWhile (\<lambda>c. c \<noteq> CHR '','') s))"
  shows "(lenient_rejects image_base64 \<longrightarrow>
            (\<exists>e. b64decode image_base64 = Inl e
               \<and> analizar E a (Inr data) console =
                   (\<lparr>status_code = 500,
                     json_body = JObj [(''error'', JStr (str_exn e)), (''status'', JStr ''error'')]\<rparr>,
                    console @ [''Error: '' @ str_exn e])))
     \<and> (\<not> lenient_rejects image_base64 \<longrightarrow>
            (\<exists>image_bytes. b64decode image_base64 = Inr image_bytes
               \<and> analizar_try E a (Inr data) =
                   (case analizar_imagen E a image_bytes of
                      Inl e \<Rightarrow> Inl e
                    | Inr descripcion \<Rightarrow>
                        Inr \<lparr>status_code = 200,
                             json_body = JObj [(''descripcion'', JStr descripcion),
                                               (''status'', JStr ''success'')]\<rparr>)))
     \<and> (list_ex (\<lambda>c. (of_char c :: nat) \<ge> 128) image_base64 \<longrightarrow> lenient_rejects image_base64)
     \<and> (CHR ''='' \<notin> set image_base64
          \<and> length (filter (\<lambda>c. table_a2b_base64 c \<noteq> None) image_base64) mod 4 \<noteq> 0
          \<longrightarrow> lenient_rejects image_base64)"
proof -
  note seg = analizar_try_segment [OF assms(1,2), of E a, folded assms(3)]
  have 1: "lenient_rejects image_base64 \<longrightarrow>
      (\<exists>e. b64decode image_base64 = Inl e
         \<and> analizar E a (Inr data) console =
             (\<lparr>status_code = 500,
               json_body = JObj [(''error'', JStr (str_exn e)), (''status'', JStr ''error'')]\<rparr>,
              console @ [''Error: '' @ str_exn e]))"
  proof
    assume "lenient_rejects image_base64"
    then have "isl (b64decode image_base64)" using b64decode_rejects [of image_base64] by blast
    then obtain e where e: "b64decode image_base64 = Inl e"
      by (cases "b64decode image_base64") simp_all
    with seg have "analizar_try E a (Inr data) = Inl e" by simp
    from analizar_raises [OF this, of console] e
    show "\<exists>e. b64decode image_base64 = Inl e
        \<and> analizar E a (Inr data) console =
            (\<lparr>status_code = 500,
              json_body = JObj [(''error'', JStr (str_exn e)), (''status'', JStr ''error'')]\<rparr>,
             console @ [''Error: '' @ str_exn e])"
      by (intro exI conjI)
  qed
  have 2: "\<not> lenient_rejects image_base64 \<longrightarrow>
      (\<exists>image_bytes. b64decode image_base64 = Inr image_bytes
         \<and> analizar_try E a (Inr data) =
             (case analizar_imagen E a image_bytes of
                Inl e \<Rightarrow> Inl e
              | Inr descripcion \<Rightarrow>
                  Inr \<lparr>status_code = 200,
                       json_body = JObj [(''descripcion'', JStr descripcion),
                                         (''status'', JStr ''success'')]\<rparr>))"
  proof
    assume "\<not> lenient_rejects image_base64"
    then have "\<not> isl (b64decode image_base64)" using b64decode_rejects [of image_base64] by blast
    then obtain bs where bs: "b64decode image_base64 = Inr bs"
      by (cases "b64decode image_base64") simp_all
    with seg have "analizar_try E a (Inr data) =
        (case analizar_imagen E a bs of
           Inl e \<Rightarrow> Inl e
         | Inr descripcion \<Rightarrow>
             Inr \<lparr>status_code = 200,
                  json_body = JObj [(''descripcion'', JStr descripcion),
                                    (''status'', JStr ''success'')]\<rparr>)"
      by simp
    with bs show "\<exists>image_bytes. b64decode image_base64 = Inr image_bytes
        \<and> analizar_try E a (Inr data) =
            (case analizar_imagen E a image_bytes of
               Inl e \<Rightarrow> Inl e
             | Inr descripcion \<Rightarrow>
                 Inr \<lparr>status_code = 200,
                      json_body = JObj [(''descripcion'', JStr descripcion),
                                        (''status'', JStr ''success'')]\<rparr>)"
      by (intro exI conjI)
  qed
  have 3: "list_ex (\<lambda>c. (of_char c :: nat) \<ge> 128) image_base64 \<longrightarrow> lenient_rejects image_base64"
    by (simp add: lenient_rejects_def)
  have 4: "CHR ''='' \<notin> set image_base64
      \<and> length (filter (\<lambda>c. table_a2b_base64 c \<noteq> None) image_base64) mod 4 \<noteq> 0
      \<longrightarrow> lenient_rejects image_base64"
    by (simp add: lenient_rejects_def pad_completes_no_pad)
  from 1 2 3 4 show ?thesis by (intro conjI)
qed

theorem analizar_base64_step_witness:
  "analizar stub_env 0x7F9C8C0B3D10
     (Inr (JObj [(''image'', JStr ''data:image/gif;base64,R0lGOD'')])) [] =
     (\<lparr>status_code = 500,
       json_body = JObj [(''error'', JStr ''Incorrect padding''), (''status'', JStr ''error'')]\<rparr>,
      [''Error: Incorrect padding''])"
proof -
  have 1: "getitem (JObj [(''image'', JStr ''data:image/gif;base64,R0lGOD'')]) ''image''
      = Inr (JStr ''data:image/gif;base64,R0lGOD'')"
    by (rule getitem_image)
  have 2: "CHR '','' \<in> set ''data:image/gif;base64,R0lGOD''" by simp
  have 3: "''R0lGOD'' = takeWhile (\<lambda>c. c \<noteq> CHR '','')
      (tl (dropWhile (\<lambda>c. c \<noteq> CHR '','') ''data:image/gif;base64,R0lGOD''))"
    by simp
  have 4: "CHR ''='' \<notin> set ''R0lGOD''
      \<and> length (filter (\<lambda>c. table_a2b_base64 c \<noteq> None) ''R0lGOD'') mod 4 \<noteq> 0"
    by (simp add: table_a2b_base64_def)
  have 5: "b64decode ''R0lGOD'' = Inl (Exn BinasciiError ''Incorrect padding'')"
    by (simp add: b64decode_def a2b_base64_def table_a2b_base64_def)
  note t = analizar_base64_step [OF 1 2 3, of stub_env "0x7F9C8C0B3D10" "[]"]
  from t have "CHR ''='' \<notin> set ''R0lGOD''
      \<and> length (filter (\<lambda>c. table_a2b_base64 c \<noteq> None) ''R0lGOD'') mod 4 \<noteq> 0
      \<longrightarrow> lenient_rejects ''R0lGOD''"
    by (elim conjE)
  with 4 have r: "lenient_rejects ''R0lGOD''" by (rule rev_mp)
  from t have "lenient_rejects ''R0lGOD'' \<longrightarrow>
      (\<exists>e. b64decode ''R0lGOD'' = Inl e
         \<and> analizar stub_env 0x7F9C8C0B3D10
             (Inr (JObj [(''image'', JStr ''data:image/gif;base64,R0lGOD'')])) [] =
             (\<lparr>status_code = 500,
               json_body = JObj [(''error'', JStr (str_exn e)), (''status'', JStr ''error'')]\<rparr>,
              [] @ [''Error: '' @ str_exn e]))"
    by (elim conjE)
  with r obtain e where e: "b64decode ''R0lGOD'' = Inl e"
    and run: "analizar stub_env 0x7F9C8C0B3D10
        (Inr (JObj [(''image'', JStr ''data:image/gif;base64,R0lGOD'')])) [] =
        (\<lparr>status_code = 500,
          json_body = JObj [(''error'', JStr (str_exn e)), (''status'', JStr ''error'')]\<rparr>,
         [] @ [''Error: '' @ str_exn e])"
    by blast
  from e 5 have "e = Exn BinasciiError ''Incorrect padding''" by simp
  with run show ?thesis by simp
qed

text \<open>
  The claim as stated fails: a payload with a space in it is not valid base64, yet the
  lenient decoder skips the space and the handler answers 200.
\<close>

theorem invalid_base64_rejected_counterexample:
  "\<not> valid_base64 ''R0lGODlhAQABAIAAAAAAAP///yH5 BAEAAAAALAAAAAABAAEAAAIBRAA7''
   \<and> b64decode ''R0lGODlhAQABAIAAAAAAAP///yH5 BAEAAAAALAAAAAABAAEAAAIBRAA7'' = Inr gif_1x1
   \<and> analizar stub_env 0x7F9C8C0B3D10
       (Inr (JObj [(''image'', JStr ''data:image/gif;base64,R0lGODlhAQABAIAAAAAAAP///yH5 BAEAAAAALAAAAAABAAEAAAIBRAA7'')])) []
     = (\<lparr>status_code = 200,
         json_body = JObj [(''descripcion'', JStr ''Una persona sonriendo''),
                           (''status'', JStr ''success'')]\<rparr>, [])"
proof -
  have v: "\<not> valid_base64 ''R0lGODlhAQABAIAAAAAAAP///yH5 BAEAAAAALAAAAAABAAEAAAIBRAA7''"
    by (simp add: valid_base64_def table_a2b_base64_def)
  have d: "b64decode ''R0lGODlhAQABAIAAAAAAAP///yH5 BAEAAAAALAAAAAABAAEAAAIBRAA7'' = Inr gif_1x1"
    by (simp add: b64decode_def a2b_base64_def table_a2b_base64_def gif_1x1_def)
  have i: "index1 (split_str (CHR '','')
      ''data:image/gif;base64,R0lGODlhAQABAIAAAAAAAP///yH5 BAEAAAAALAAAAAABAAEAAAIBRAA7'')
      = Inr ''R0lGODlhAQABAIAAAAAAAP///yH5 BAEAAAAALAAAAAABAAEAAAIBRAA7''"
    by (simp add: index1_def)
  from stub_env_run [OF i d, of "0x7F9C8C0B3D10" "[]"] v d show ?thesis by simp
qed

text \<open>
  C6. An image string without any comma is answered by 500 with status error (the
  message is that of the index error).
\<close>

theorem analizar_no_comma:
  assumes "getitem data ''image'' = Inr (JStr s)" and "CHR '','' \<notin> set s"
  shows "analizar E a (Inr data) console =
     (\<lparr>status_code = 500,
       json_body = JObj [(''error'', JStr ''list index out of range''),
                         (''status'', JStr ''error'')]\<rparr>,
      console @ [''Error: list index out of range''])"
proof -
  have "analizar_try E a (Inr data) = Inl (Exn IndexError ''list index out of range'')"
    using analizar_try_string [OF assms(1), of E a] index1_split_none [OF assms(2)] by simp
  from analizar_raises [OF this] show ?thesis by simp
qed

theorem analizar_no_comma_witness:
  "analizar stub_env 0x7F9C8C0B3D10 (Inr (JObj [(''image'', JStr ''not-a-data-url'')])) [] =
     (\<lparr>status_code = 500,
       json_body = JObj [(''error'', JStr ''list index out of range''),
                         (''status'', JStr ''error'')]\<rparr>,
      [''Error: list index out of range''])"
proof -
  have 1: "getitem (JObj [(''image'', JStr ''not-a-data-url'')]) ''image'' = Inr (JStr ''not-a-data-url'')"
    by (rule getitem_image)
  have 2: "CHR '','' \<notin> set ''not-a-data-url''" by simp
  from analizar_no_comma [OF 1 2, of stub_env "0x7F9C8C0B3D10" "[]"] show ?thesis by simp
qed

text \<open>
  C7. When the segment decodes to bytes that the image library cannot open,
  \<^verbatim>\<open>analizar_imagen\<close> fails at that step and the handler answers 500 with status
  error.
\<close>

theorem analizar_unreadable_image:
  assumes "getitem data ''image'' = Inr (JStr s)"
    and "index1 (split_str (CHR '','') s) = Inr image_base64"
    and "b64decode image_base64 = Inr image_bytes"
    and "image_open E \<lparr>address = a, getvalue = image_bytes\<rparr> = Inl e"
  shows "analizar_imagen E a image_bytes = Inl e
     \<and> analizar E a (Inr data) console =
         (\<lparr>status_code = 500,
           json_body = JObj [(''error'', JStr (str_exn e)), (''status'', JStr ''error'')]\<rparr>,
          console @ [''Error: '' @ str_exn e])"
proof -
  have i: "analizar_imagen E a image_bytes = Inl e"
    using assms(4) by (simp add: analizar_imagen_def)
  have "analizar_try E a (Inr data) = Inl e"
    using analizar_try_string [OF assms(1), of E a] assms(2,3) i by simp
  from analizar_raises [OF this] i show ?thesis by simp
qed

theorem analizar_unreadable_image_witness:
  "analizar_imagen stub_env 0x7F9C8C0B3D10 [65, 66, 67] =
     Inl (Exn LibraryError ''cannot identify image file <_io.BytesIO object at 0x7f9c8c0b3d10>'')
   \<and> analizar stub_env 0x7F9C8C0B3D10
       (Inr (JObj [(''image'', JStr ''data:text/plain;base64,QUJD'')])) [] =
     (\<lparr>status_code = 500,
       json_body = JObj [(''error'', JStr ''cannot identify image file <_io.BytesIO object at 0x7f9c8c0b3d10>''),
                         (''status'', JStr ''error'')]\<rparr>,
      [''Error: cannot identify image file <_io.BytesIO object at 0x7f9c8c0b3d10>''])"
proof -
  have 1: "getitem (JObj [(''image'', JStr ''data:text/plain;base64,QUJD'')]) ''image''
      = Inr (JStr ''data:text/plain;base64,QUJD'')"
    by (rule getitem_image)
  have 2: "index1 (split_str (CHR '','') ''data:text/plain;base64,QUJD'') = Inr ''QUJD''"
    by (simp add: index1_def)
  have 4: "image_open stub_env \<lparr>address = 0x7F9C8C0B3D10, getvalue = [65, 66, 67]\<rparr>
      = Inl (Exn LibraryError ''cannot identify image file <_io.BytesIO object at 0x7f9c8c0b3d10>'')"
    by (simp add: stub_env_rejects_ABC hex_address_1)
  from analizar_unreadable_image [OF 1 2 ABC_decode 4, of "[]"] show ?thesis by simp
qed

text \<open>
  C8. When the model call succeeds, the \<open>descripcion\<close> of the answer is the text of
  the model, unchanged by \<^verbatim>\<open>analizar_imagen\<close> and by the handler.
\<close>

theorem descripcion_is_model_text:
  assumes "getitem data ''image'' = Inr (JStr s)"
    and "index1 (split_str (CHR '','') s) = Inr image_base64"
    and "b64decode image_base64 = Inr image_bytes"
    and "image_open E \<lparr>address = a, getvalue = image_bytes\<rparr> = Inr img"
    and "generate_content E PROMPT img = Inr response"
    and "response_text E response = Inr text"
  shows "analizar_imagen E a image_bytes = Inr text
     \<and> analizar E a (Inr data) console =
         (\<lparr>status_code = 200,
           json_body = JObj [(''descripcion'', JStr text), (''status'', JStr ''success'')]\<rparr>,
          console)"
proof -
  have i: "analizar_imagen E a image_bytes = Inr text"
    using assms(4-6) by (simp add: analizar_imagen_def)
  have "analizar_try E a (Inr data) =
      Inr \<lparr>status_code = 200,
           json_body = JObj [(''descripcion'', JStr text), (''status'', JStr ''success'')]\<rparr>"
    using analizar_try_string [OF assms(1), of E a] assms(2,3) i by simp
  from analizar_returns [OF this] i show ?thesis by simp
qed

theorem descripcion_is_model_text_witness:
  "analizar_imagen stub_env 0x7F9C8C0B3D10 gif_1x1 = Inr ''Una persona sonriendo''
   \<and> analizar stub_env 0x7F9C8C0B3D10
       (Inr (JObj [(''image'', JStr ''data:image/gif;base64,R0lGODlhAQABAIAAAAAAAP///yH5BAEAAAAALAAAAAABAAEAAAIBRAA7'')])) [''earlier line'']
     = (\<lparr>status_code = 200,
         json_body = JObj [(''descripcion'', JStr ''Una persona sonriendo''),
                           (''status'', JStr ''success'')]\<rparr>,
        [''earlier line''])"
proof -
  have 1: "getitem (JObj [(''image'', JStr ''data:image/gif;base64,R0lGODlhAQABAIAAAAAAAP///yH5BAEAAAAALAAAAAABAAEAAAIBRAA7'')]) ''image''
      = Inr (JStr ''data:image/gif;base64,R0lGODlhAQABAIAAAAAAAP///yH5BAEAAAAALAAAAAABAAEAAAIBRAA7'')"
    by (rule getitem_image)
  have 2: "index1 (split_str (CHR '','') ''data:image/gif;base64,R0lGODlhAQABAIAAAAAAAP///yH5BAEAAAAALAAAAAABAAEAAAIBRAA7'')
      = Inr ''R0lGODlhAQABAIAAAAAAAP///yH5BAEAAAAALAAAAAABAAEAAAIBRAA7''"
    by (simp only: gif_url_parts) (simp add: index1_def)
  from descripcion_is_model_text [OF 1 2 gif_decode stub_env_simps(1) [of "0x7F9C8C0B3D10"]
      stub_env_simps(2) stub_env_simps(3), of "[''earlier line'']"]
  show ?thesis by simp
qed

lemma analizar_try_stages:
  "(\<exists>e. \<forall>a. analizar_try E a req = Inl e)
   \<or> (\<exists>image_bytes. \<forall>a. analizar_try E a req =
         (case analizar_imagen E a image_bytes of
            Inl e \<Rightarrow> Inl e
          | Inr descripcion \<Rightarrow>
              Inr \<lparr>status_code = 200,
                   json_body = JObj [(''descripcion'', JStr descripcion),
                                     (''status'', JStr ''success'')]\<rparr>))"
proof (cases req)
  case (Inl e)
  then show ?thesis by (simp add: analizar_try_def)
next
  case req: (Inr data)
  show ?thesis
  proof (cases "getitem data ''image''")
    case (Inl e)
    with req show ?thesis by (simp add: analizar_try_def)
  next
    case g: (Inr image_data)
    show ?thesis
    proof (cases "split_comma image_data")
      case (Inl e)
      with req g show ?thesis by (simp add: analizar_try_def)
    next
      case sp: (Inr parts)
      show ?thesis
      proof (cases "index1 parts")
        case (Inl e)
        with req g sp show ?thesis by (simp add: analizar_try_def)
      next
        case ix: (Inr image_base64)
        show ?thesis
        proof (cases "b64decode image_base64")
          case (Inl e)
          with req g sp ix show ?thesis by (simp add: analizar_try_def)
        next
          case (Inr image_bytes)
          with req g sp ix have "\<forall>a. analizar_try E a req =
              (case analizar_imagen E a image_bytes of
                 Inl e \<Rightarrow> Inl e
               | Inr descripcion \<Rightarrow>
                   Inr \<lparr>status_code = 200,
                        json_body = JObj [(''descripcion'', JStr descripcion),
                                          (''status'', JStr ''success'')]\<rparr>)"
            by (simp add: analizar_try_def jsonify_def split: sum.splits)
          then show ?thesis by blast
        qed
      qed
    qed
  qed
qed

lemma analizar_imagen_two_addresses:
  assumes "\<forall>a a' b img. image_open E \<lparr>address = a, getvalue = b\<rparr> = Inr img \<longrightarrow>
       image_open E \<lparr>address = a', getvalue = b\<rparr> = Inr img"
  shows "analizar_imagen E a' image_bytes = analizar_imagen E a image_bytes
     \<or> (\<exists>e e'. image_open E \<lparr>address = a, getvalue = image_bytes\<rparr> = Inl e
           \<and> image_open E \<lparr>address = a', getvalue = image_bytes\<rparr> = Inl e'
           \<and> analizar_imagen E a image_bytes = Inl e
           \<and> analizar_imagen E a' image_bytes = Inl e')"
proof (cases "image_open E \<lparr>address = a, getvalue = image_bytes\<rparr>")
  case (Inr img)
  with assms have "image_open E \<lparr>address = a', getvalue = image_bytes\<rparr> = Inr img" by blast
  with Inr show ?thesis by (simp add: analizar_imagen_def)
next
  case (Inl e)
  show ?thesis
  proof (cases "image_open E \<lparr>address = a', getvalue = image_bytes\<rparr>")
    case (Inr img)
    with assms have "image_open E \<lparr>address = a, getvalue = image_bytes\<rparr> = Inr img" by blast
    with Inl show ?thesis by simp
  next
    case e': (Inl e')
    with Inl show ?thesis by (simp add: analizar_imagen_def)
  qed
qed

text \<open>
  C9, as amended. With a model that is a function (a deterministic stub) and an image
  library that opens a file according to its bytes, two runs of the handler on the same
  request give the same status code, the same keys and the same status. The two responses
  are identical unless the image library raises: then both are error answers, which may
  differ in the text of the error, since the message of the library names the in-memory
  file, created anew in each run at an address of its own.
\<close>

theorem analizar_two_runs:
  assumes "\<forall>a a' b img. image_open E \<lparr>address = a, getvalue = b\<rparr> = Inr img \<longrightarrow>
       image_open E \<lparr>address = a', getvalue = b\<rparr> = Inr img"
    and "r = fst (analizar E a req console)"
    and "r' = fst (analizar E a' req console')"
  shows "status_code r' = status_code r
     \<and> json_keys (json_body r') = json_keys (json_body r)
     \<and> json_get (json_body r') ''status'' = json_get (json_body r) ''status''
     \<and> (r' = r
        \<or> (\<exists>image_bytes e e'.
              image_open E \<lparr>address = a, getvalue = image_bytes\<rparr> = Inl e
            \<and> image_open E \<lparr>address = a', getvalue = image_bytes\<rparr> = Inl e'
            \<and> r = \<lparr>status_code = 500,
                   json_body = JObj [(''error'', JStr (str_exn e)), (''status'', JStr ''error'')]\<rparr>
            \<and> r' = \<lparr>status_code = 500,
                    json_body = JObj [(''error'', JStr (str_exn e')), (''status'', JStr ''error'')]\<rparr>))"
proof -
  have main: "r' = r
      \<or> (\<exists>image_bytes e e'.
            image_open E \<lparr>address = a, getvalue = image_bytes\<rparr> = Inl e
          \<and> image_open E \<lparr>address = a', getvalue = image_bytes\<rparr> = Inl e'
          \<and> r = \<lparr>status_code = 500,
                 json_body = JObj [(''error'', JStr (str_exn e)), (''status'', JStr ''error'')]\<rparr>
          \<and> r' = \<lparr>status_code = 500,
                  json_body = JObj [(''error'', JStr (str_exn e')), (''status'', JStr ''error'')]\<rparr>)"
    using analizar_try_stages [of E req]
  proof (elim disjE exE)
    fix e assume "\<forall>a. analizar_try E a req = Inl e"
    then have "analizar_try E a req = Inl e" "analizar_try E a' req = Inl e" by simp_all
    then have "r' = r"
      unfolding assms(2,3) by (simp add: analizar_def)
    then show ?thesis ..
  next
    fix image_bytes
    assume st: "\<forall>a. analizar_try E a req =
        (case analizar_imagen E a image_bytes of
           Inl e \<Rightarrow> Inl e
         | Inr descripcion \<Rightarrow>
             Inr \<lparr>status_code = 200,
                  json_body = JObj [(''descripcion'', JStr descripcion),
                                    (''status'', JStr ''success'')]\<rparr>)"
    from analizar_imagen_two_addresses [OF assms(1), of a' image_bytes a]
    show ?thesis
    proof (elim disjE exE conjE)
      assume "analizar_imagen E a' image_bytes = analizar_imagen E a image_bytes"
      with st have "analizar_try E a' req = analizar_try E a req" by simp
      then have "r' = r" unfolding assms(2,3) by (simp add: analizar_def split: sum.splits)
      then show ?thesis ..
    next
      fix e e'
      assume o: "image_open E \<lparr>address = a, getvalue = image_bytes\<rparr> = Inl e"
        and o': "image_open E \<lparr>address = a', getvalue = image_bytes\<rparr> = Inl e'"
        and i: "analizar_imagen E a image_bytes = Inl e"
        and i': "analizar_imagen E a' image_bytes = Inl e'"
      from st i have "analizar_try E a req = Inl e" by simp
      then have 1: "r = \<lparr>status_code = 500,
          json_body = JObj [(''error'', JStr (str_exn e)), (''status'', JStr ''error'')]\<rparr>"
        unfolding assms(2) by (simp add: analizar_def jsonify_def)
      from st i' have "analizar_try E a' req = Inl e'" by simp
      then have 2: "r' = \<lparr>status_code = 500,
          json_body = JObj [(''error'', JStr (str_exn e')), (''status'', JStr ''error'')]\<rparr>"
        unfolding assms(3) by (simp add: analizar_def jsonify_def)
      from o o' 1 2 show ?thesis by blast
    qed
  qed
  from main have "status_code r' = status_code r"
    and "json_keys (json_body r') = json_keys (json_body r)"
    and "json_get (json_body r') ''status'' = json_get (json_body r) ''status''"
    by (auto simp: json_keys_def json_get_def)
  with main show ?thesis by (intro conjI)
qed

theorem analizar_two_runs_witness:
  "status_code (fst (analizar stub_env 0x7F9C8C0B3E50
       (Inr (JObj [(''image'', JStr ''data:image/gif;base64,QUJD'')]))
       [''Error: cannot identify image file <_io.BytesIO object at 0x7f9c8c0b3d10>'']))
     = status_code (fst (analizar stub_env 0x7F9C8C0B3D10
       (Inr (JObj [(''image'', JStr ''data:image/gif;base64,QUJD'')])) []))
   \<and> json_keys (json_body (fst (analizar stub_env 0x7F9C8C0B3E50
       (Inr (JObj [(''image'', JStr ''data:image/gif;base64,QUJD'')]))
       [''Error: cannot identify image file <_io.BytesIO object at 0x7f9c8c0b3d10>''])))
     = json_keys (json_body (fst (analizar stub_env 0x7F9C8C0B3D10
       (Inr (JObj [(''image'', JStr ''data:image/gif;base64,QUJD'')])) [])))"
  using analizar_two_runs [OF stub_env_opens_by_bytes refl refl,
      of "0x7F9C8C0B3E50" "Inr (JObj [(''image'', JStr ''data:image/gif;base64,QUJD'')])"
         "[''Error: cannot identify image file <_io.BytesIO object at 0x7f9c8c0b3d10>'']"
         "0x7F9C8C0B3D10" "[]"]
  by (elim conjE) (intro conjI)

text \<open>
  The claim as stated fails: the same request, whose bytes are not an image, run twice
  with the same stub gets two error texts, one for each in-memory file.
\<close>

theorem identical_responses_counterexample:
  "json_get (json_body (fst (analizar stub_env 0x7F9C8C0B3D10
       (Inr (JObj [(''image'', JStr ''data:image/gif;base64,QUJD'')])) []))) ''error''
     = Some (JStr ''cannot identify image file <_io.BytesIO object at 0x7f9c8c0b3d10>'')
   \<and> json_get (json_body (fst (analizar stub_env 0x7F9C8C0B3E50
       (Inr (JObj [(''image'', JStr ''data:image/gif;base64,QUJD'')]))
       (snd (analizar stub_env 0x7F9C8C0B3D10
          (Inr (JObj [(''image'', JStr ''data:image/gif;base64,QUJD'')])) []))))) ''error''
     = Some (JStr ''cannot identify image file <_io.BytesIO object at 0x7f9c8c0b3e50>'')
   \<and> fst (analizar stub_env 0x7F9C8C0B3E50
       (Inr (JObj [(''image'', JStr ''data:image/gif;base64,QUJD'')]))
       (snd (analizar stub_env 0x7F9C8C0B3D10
          (Inr (JObj [(''image'', JStr ''data:image/gif;base64,QUJD'')])) [])))
     \<noteq> fst (analizar stub_env 0x7F9C8C0B3D10
       (Inr (JObj [(''image'', JStr ''data:image/gif;base64,QUJD'')])) [])"
  by (simp add: stub_env_run_ABC hex_address_1 hex_address_2 json_get_def)

text \<open>
  C10. Every response has a status that is \<open>success\<close> or \<open>error\<close>; with
  \<open>success\<close> the keys are exactly \<open>descripcion\<close> and \<open>status\<close> and the code is
  200; with \<open>error\<close> the keys are exactly \<open>error\<close> and \<open>status\<close> and the code is
  500; no body has both \<open>descripcion\<close> and \<open>error\<close>.
\<close>

theorem analizar_envelope:
  assumes "analizar E a req console = (r, console')"
  shows "(json_get (json_body r) ''status'' = Some (JStr ''success'')
          \<or> json_get (json_body r) ''status'' = Some (JStr ''error''))
     \<and> (json_get (json_body r) ''status'' = Some (JStr ''success'') \<longrightarrow>
          set (json_keys (json_body r)) = {''descripcion'', ''status''} \<and> status_code r = 200)
     \<and> (json_get (json_body r) ''status'' = Some (JStr ''error'') \<longrightarrow>
          set (json_keys (json_body r)) = {''error'', ''status''} \<and> status_code r = 500)
     \<and> distinct (json_keys (json_body r))
     \<and> \<not> (''descripcion'' \<in> set (json_keys (json_body r))
          \<and> ''error'' \<in> set (json_keys (json_body r)))"
proof (cases "analizar_try E a req")
  case (Inl e)
  with assms have "r = \<lparr>status_code = 500,
       json_body = JObj [(''error'', JStr (str_exn e)), (''status'', JStr ''error'')]\<rparr>"
    by (simp add: analizar_def jsonify_def)
  then show ?thesis by (simp add: json_get_def json_keys_def)
next
  case (Inr r')
  then have "\<exists>d. r' = \<lparr>status_code = 200,
       json_body = JObj [(''descripcion'', JStr d), (''status'', JStr ''success'')]\<rparr>"
    by (auto simp: analizar_try_def jsonify_def split: sum.splits)
  moreover from Inr assms have "r = r'" by (simp add: analizar_def)
  ultimately show ?thesis by (auto simp: json_get_def json_keys_def)
qed

theorem analizar_envelope_witness:
  "set (json_keys (json_body (fst (analizar stub_env 0x7F9C8C0B3D10
       (Inr (JObj [(''image'', JStr ''data:image/gif;base64,R0lGODlhAQABAIAAAAAAAP///yH5BAEAAAAALAAAAAABAAEAAAIBRAA7'')])) []))))
     = {''descripcion'', ''status''}
   \<and> set (json_keys (json_body (fst (analizar stub_env 0x7F9C8C0B3D10
       (Inr (JObj [(''image'', JStr ''not-a-data-url'')])) []))))
     = {''error'', ''status''}"
proof -
  have i: "index1 (split_str (CHR '','')
      ''data:image/gif;base64,R0lGODlhAQABAIAAAAAAAP///yH5BAEAAAAALAAAAAABAAEAAAIBRAA7'')
      = Inr ''R0lGODlhAQABAIAAAAAAAP///yH5BAEAAAAALAAAAAABAAEAAAIBRAA7''"
    by (simp only: gif_url_parts) (simp add: index1_def)
  note ok = stub_env_run [OF i gif_decode, of "0x7F9C8C0B3D10" "[]"]
  have "analizar_try stub_env 0x7F9C8C0B3D10 (Inr (JObj [(''image'', JStr ''not-a-data-url'')]))
      = Inl (Exn IndexError ''list index out of range'')"
    using analizar_try_string [OF getitem_image, of stub_env "0x7F9C8C0B3D10" "''not-a-data-url''"]
    by (simp add: index1_def)
  note ko = analizar_raises [OF this, of "[]"]
  have "json_get (JObj [(''descripcion'', JStr ''Una persona sonriendo''),
      (''status'', JStr ''success'')]) ''status'' = Some (JStr ''success'')"
    and "json_get (JObj [(''error'', JStr ''list index out of range''),
      (''status'', JStr ''error'')]) ''status'' = Some (JStr ''error'')"
    by (simp_all add: json_get_def)
  with analizar_envelope [OF ok] analizar_envelope [OF ko] ok ko
  show ?thesis by simp
qed

end
